theory Spec2Isabelle
  imports Complex_Main
begin

section \<open>The weighted multi-term loss of \<^verbatim>\<open>src/code/loss/__init__.py\<close>\<close>

text \<open>
  The class \<^verbatim>\<open>Loss\<close> parses a configuration string \<^verbatim>\<open>"w*kind+w*kind+..."\<close> into a list of
  loss terms, evaluates their weighted sum on every batch and keeps a log matrix with one
  row per epoch and one column per term.

  Numbers are idealised: a tensor entry, a weight and a loss value are a \<^typ>\<open>real\<close>.
  Everything the file only calls is a field of the record \<open>ext\<close> below: Python's
  \<^verbatim>\<open>float\<close>, the constructors and the calls of the loss sub-modules, their scheduler,
  \<^verbatim>\<open>conv2d\<close>, the division of a tensor by a number and \<^verbatim>\<open>load_state_dict\<close>. The general
  theorems hold for every such record; the evaluations at a concrete input use the one
  of the subsection on a concrete environment. Printing, the device placement
  (\<^verbatim>\<open>.to(device)\<close>) and the precision cast (\<^verbatim>\<open>.half()\<close>) act on nothing the model tracks
  and are left out, and so are \<^verbatim>\<open>display_loss\<close>, \<^verbatim>\<open>plot_loss\<close> and \<^verbatim>\<open>save\<close>, which change no
  attribute.
\<close>

subsection \<open>Exceptions\<close>

datatype error =
    ValueError
  | UnboundLocalError
  | NotImplementedError
  | IndexError
  | AttributeError
  | TypeError
  | RuntimeError
  | FileNotFoundError

subsection \<open>Strings: \<^verbatim>\<open>str.split\<close> and \<^verbatim>\<open>str.find\<close>\<close>

text \<open>\<^verbatim>\<open>s.split(c)\<close> for a separator of one character: one more piece than separators.\<close>

fun split_on :: "char \<Rightarrow> string \<Rightarrow> string list" where
  "split_on c [] = [[]]"
| "split_on c (x # xs) =
     (if x = c then [] # split_on c xs
      else (case split_on c xs of
              [] \<Rightarrow> [[x]]
            | w # ws \<Rightarrow> (x # w) # ws))"

text \<open>\<^verbatim>\<open>s.find(sub) >= 0\<close>: \<open>sub\<close> occurs in \<open>s\<close>.\<close>

fun contains :: "string \<Rightarrow> string \<Rightarrow> bool" where
  "contains sub [] = (sub = [])"
| "contains sub (x # xs) = (take (length sub) (x # xs) = sub \<or> contains sub xs)"

subsection \<open>Configuration, loss terms, sub-modules\<close>

text \<open>The fields of \<^verbatim>\<open>args\<close> that \<^verbatim>\<open>Loss.__init__\<close> reads.\<close>

record args =
  args_n_GPUs :: int
  args_intensity_loss :: bool
  args_normalized_loss :: bool
  args_rgb_range :: int
  args_loss :: string
  args_n_channel_out :: int
  args_cpu :: bool
  args_patch_size :: int
  args_batch_size :: int
  args_precision :: string
  args_load :: string

text \<open>
  A constructor call of a loss sub-module, with the arguments \<^verbatim>\<open>__init__\<close> passes.
  \<^verbatim>\<open>Adversarial\<close> receives the whole of \<^verbatim>\<open>args\<close> and the kind string.
\<close>

datatype loss_ctor =
    MSELoss
  | L1Loss
  | Charbonnier
  | GradL2 int bool
  | SSIM int int int bool
  | MSSSIM int int int bool
  | WeightedMSE
  | VGG string int
  | Adversarial args string

text \<open>
  An entry of \<^verbatim>\<open>self.loss\<close>, the dictionary with the keys \<^verbatim>\<open>'type'\<close>, \<^verbatim>\<open>'weight'\<close> and
  \<^verbatim>\<open>'function'\<close>. The sub-module objects live in a store (a list, an object's address is
  its position) since \<^verbatim>\<open>self.loss\<close> and \<^verbatim>\<open>self.loss_module\<close> hold the same objects;
  \<open>l_function\<close> is the address of the callable, \<open>None\<close> is Python's \<^verbatim>\<open>None\<close>.
\<close>

record entry =
  l_type :: string
  l_weight :: real
  l_function :: "nat option"

text \<open>
  \<^verbatim>\<open>self.loss_module\<close>: the \<^verbatim>\<open>nn.ModuleList\<close> of the callables in the order of
  \<^verbatim>\<open>self.loss\<close>, wrapped in \<^verbatim>\<open>nn.DataParallel\<close> on several GPUs.
\<close>

datatype container = ModuleList "nat list" | DataParallel "nat list"

text \<open>
  What the file calls and does not define. \<open>'t\<close> is an image tensor, \<open>'m\<close> a loss
  sub-module object, \<open>'sd\<close> a serialized state dictionary.
  \<^item> \<open>pyfloat\<close>: \<^verbatim>\<open>float(s)\<close> on a string, \<open>None\<close> for its \<^verbatim>\<open>ValueError\<close>;
  \<^item> \<open>construct\<close>: the constructor call;
  \<^item> \<open>call\<close>: \<^verbatim>\<open>l['function'](sr, hr)\<close>, the value and the object after the call;
  \<^item> \<open>loss_attr\<close>: the attribute \<^verbatim>\<open>.loss\<close> of an object, \<open>None\<close> when it has none;
  \<^item> \<open>has_scheduler\<close>, \<open>scheduler_step\<close>: \<^verbatim>\<open>hasattr(l, 'scheduler')\<close>, \<^verbatim>\<open>l.scheduler.step()\<close>;
  \<^item> \<open>conv2d\<close>: \<^verbatim>\<open>nn.functional.conv2d\<close> with a kernel of shape (1,3,1,1), given by its
    three entries;
  \<^item> \<open>tdiv\<close>: a tensor divided by a number;
  \<^item> \<open>load_state_dict\<close>: the restored sub-module objects.
\<close>

record ('t, 'm, 'sd) ext =
  pyfloat :: "string \<Rightarrow> real option"
  construct :: "loss_ctor \<Rightarrow> error + 'm"
  call :: "'m \<Rightarrow> 't \<Rightarrow> 't \<Rightarrow> error + (real \<times> 'm)"
  loss_attr :: "'m \<Rightarrow> real option"
  has_scheduler :: "'m \<Rightarrow> bool"
  scheduler_step :: "'m \<Rightarrow> 'm"
  conv2d :: "'t \<Rightarrow> real \<times> real \<times> real \<Rightarrow> error + 't"
  tdiv :: "'t \<Rightarrow> real \<Rightarrow> 't"
  load_state_dict :: "'sd \<Rightarrow> 'm list \<Rightarrow> error + 'm list"

text \<open>
  The attributes of a \<^verbatim>\<open>Loss\<close> object. \<open>log_tensor\<close> is \<^verbatim>\<open>self.log\<close>, a list of rows;
  \<open>[]\<close> is the empty \<^verbatim>\<open>torch.Tensor()\<close>. \<open>intensity_conv\<close> exists only under
  \<^verbatim>\<open>args.intensity_loss\<close>. \<open>heap\<close> is the store of the sub-module objects.
\<close>

record 'm Loss =
  n_GPUs :: int
  loss :: "entry list"
  loss_module :: container
  intensity_loss :: bool
  normalize :: bool
  rgb_range :: real
  intensity_conv :: "(real \<times> real \<times> real) option"
  log_tensor :: "real list list"
  heap :: "'m list"

text \<open>The two files of a checkpoint directory; \<open>None\<close> is a file that cannot be read.\<close>

record 'sd checkpoint =
  loss_pt :: "'sd option"
  loss_log_pt :: "real list list option"

subsection \<open>\<^verbatim>\<open>Loss.load\<close>, \<^verbatim>\<open>Loss.get_loss_module\<close>, \<^verbatim>\<open>Loss.step\<close>\<close>

text \<open>
  \<^verbatim>\<open>for l in c\<close>: an \<^verbatim>\<open>nn.ModuleList\<close> iterates over its members; an \<^verbatim>\<open>nn.DataParallel\<close>
  defines neither \<^verbatim>\<open>__iter__\<close> nor \<^verbatim>\<open>__getitem__\<close> and raises \<^verbatim>\<open>TypeError\<close>.
\<close>

fun iterate :: "container \<Rightarrow> error + nat list" where
  "iterate (ModuleList ms) = Inr ms"
| "iterate (DataParallel ms) = Inl TypeError"

text \<open>
  \<^verbatim>\<open>if hasattr(l, 'scheduler'): for _ in range(n): l.scheduler.step()\<close> on the object
  at address \<open>a\<close>.
\<close>

definition replay :: "('t, 'm, 'sd) ext \<Rightarrow> nat \<Rightarrow> 'm list \<Rightarrow> nat \<Rightarrow> 'm list" where
  "replay env n h a =
     (if has_scheduler env (h ! a) then h[a := (scheduler_step env ^^ n) (h ! a)] else h)"

definition load ::
  "('t, 'm, 'sd) ext \<Rightarrow> 'm Loss \<Rightarrow> 'sd checkpoint \<Rightarrow> bool \<Rightarrow> error + 'm Loss" where
  "load env self apath cpu =
     (case loss_pt apath of
        None \<Rightarrow> Inl FileNotFoundError
      | Some sd \<Rightarrow>
          (case load_state_dict env sd (heap self) of
             Inl e \<Rightarrow> Inl e
           | Inr h \<Rightarrow>
               (case loss_log_pt apath of
                  None \<Rightarrow> Inl FileNotFoundError
                | Some lg \<Rightarrow>
                    (case iterate (loss_module self) of
                       Inl e \<Rightarrow> Inl e
                     | Inr ms \<Rightarrow>
                         Inr (self\<lparr>log_tensor := lg,
                                   heap := foldl (replay env (length lg)) h ms\<rparr>)))))"

text \<open>
  \<^verbatim>\<open>self.loss_module.module\<close> exists on the \<^verbatim>\<open>DataParallel\<close> wrapper only.
\<close>

definition get_loss_module :: "'m Loss \<Rightarrow> error + container" where
  "get_loss_module self =
     (if n_GPUs self = 1 then Inr (loss_module self)
      else (case loss_module self of
              DataParallel ms \<Rightarrow> Inr (ModuleList ms)
            | ModuleList ms \<Rightarrow> Inl AttributeError))"

definition step :: "('t, 'm, 'sd) ext \<Rightarrow> 'm Loss \<Rightarrow> error + 'm Loss" where
  "step env self =
     (case get_loss_module self of
        Inl e \<Rightarrow> Inl e
      | Inr c \<Rightarrow>
          (case iterate c of
             Inl e \<Rightarrow> Inl e
           | Inr ms \<Rightarrow> Inr (self\<lparr>heap := foldl (replay env 1) (heap self) ms\<rparr>)))"

subsection \<open>\<^verbatim>\<open>Loss.__init__\<close>\<close>

text \<open>
  The \<^verbatim>\<open>if\<close>/\<^verbatim>\<open>elif\<close> chain over \<^verbatim>\<open>loss_type\<close>, in the order of the source. It has no
  \<^verbatim>\<open>else\<close>: \<open>None\<close> is the case where no branch is taken and \<^verbatim>\<open>loss_function\<close> is not
  assigned.
\<close>

definition select_ctor :: "args \<Rightarrow> string \<Rightarrow> loss_ctor option" where
  "select_ctor a loss_type =
     (if loss_type = ''MSE'' then Some MSELoss
      else if loss_type = ''L1'' then Some L1Loss
      else if loss_type = ''Charbonnier'' then Some Charbonnier
      else if loss_type = ''GradL2'' then Some (GradL2 (args_n_channel_out a) (\<not> args_cpu a))
      else if loss_type = ''SSIM'' then
        Some (SSIM (args_patch_size a) (args_batch_size a) (args_n_channel_out a) (\<not> args_cpu a))
      else if loss_type = ''MSSSIM'' then
        Some (MSSSIM (args_patch_size a) (args_batch_size a) (args_n_channel_out a) (\<not> args_cpu a))
      else if loss_type = ''WeightedMSE'' then Some WeightedMSE
      else if contains ''VGG'' loss_type then Some (VGG (drop 3 loss_type) (args_rgb_range a))
      else if contains ''GAN'' loss_type then Some (Adversarial a loss_type)
      else None)"

text \<open>
  The body of \<^verbatim>\<open>for loss in args.loss.split('+')\<close>. The loop state is \<^verbatim>\<open>self.loss\<close>, the
  local variable \<^verbatim>\<open>loss_function\<close> (\<open>None\<close> while it is unbound; it keeps its value from
  one iteration to the next) and the store. The constructor runs before the dictionary
  is built; in the dictionary \<^verbatim>\<open>float(weight)\<close> is evaluated before \<^verbatim>\<open>loss_function\<close>.
\<close>

definition DIS_entry :: entry where
  "DIS_entry = \<lparr>l_type = ''DIS'', l_weight = 1, l_function = None\<rparr>"

definition Total_entry :: entry where
  "Total_entry = \<lparr>l_type = ''Total'', l_weight = 0, l_function = None\<rparr>"

definition init_term ::
  "('t, 'm, 'sd) ext \<Rightarrow> args \<Rightarrow> string \<Rightarrow> entry list \<times> nat option \<times> 'm list
     \<Rightarrow> error + (entry list \<times> nat option \<times> 'm list)" where
  "init_term env a term s =
     (case s of (ls, loss_function, h) \<Rightarrow>
       (case split_on (CHR ''*'') term of
          [weight, loss_type] \<Rightarrow>
            (case (case select_ctor a loss_type of
                     None \<Rightarrow> Inr (loss_function, h)
                   | Some c \<Rightarrow>
                       (case construct env c of
                          Inl e \<Rightarrow> Inl e
                        | Inr m \<Rightarrow> Inr (Some (length h), h @ [m]))) of
               Inl e \<Rightarrow> Inl e
             | Inr (loss_function', h') \<Rightarrow>
                 (case pyfloat env weight of
                    None \<Rightarrow> Inl ValueError
                  | Some w \<Rightarrow>
                      (case loss_function' of
                         None \<Rightarrow> Inl UnboundLocalError
                       | Some f \<Rightarrow>
                           (let ls' = ls @ [\<lparr>l_type = loss_type, l_weight = w,
                                              l_function = Some f\<rparr>]
                            in Inr (if contains ''GAN'' loss_type then ls' @ [DIS_entry] else ls',
                                    loss_function', h')))))
        | _ \<Rightarrow> Inl ValueError))"

fun init_terms ::
  "('t, 'm, 'sd) ext \<Rightarrow> args \<Rightarrow> string list \<Rightarrow> entry list \<times> nat option \<times> 'm list
     \<Rightarrow> error + (entry list \<times> nat option \<times> 'm list)" where
  "init_terms env a [] s = Inr s"
| "init_terms env a (term # terms) s =
     (case init_term env a term s of
        Inl e \<Rightarrow> Inl e
      | Inr s' \<Rightarrow> init_terms env a terms s')"

text \<open>
  \<^verbatim>\<open>Loss.__init__(args, ckp)\<close>; \<open>ckp\<close> is the content of \<^verbatim>\<open>ckp.dir\<close>. An exception leaves
  no object: the result is \<open>Inl\<close>.
\<close>

definition luma :: "real \<times> real \<times> real" where
  "luma = (299 / 1000, 587 / 1000, 114 / 1000)"

text \<open>
  The object after the loop, before a checkpoint is loaded: the \<^verbatim>\<open>'Total'\<close> entry when the
  list has more than one entry, the module list of the callables, the empty log.
\<close>

definition init_object :: "args \<Rightarrow> entry list \<Rightarrow> 'm list \<Rightarrow> 'm Loss" where
  "init_object a ls h =
     (let ls' = (if length ls > 1 then ls @ [Total_entry] else ls);
          ms = List.map_filter l_function ls'
      in \<lparr>n_GPUs = args_n_GPUs a,
          loss = ls',
          loss_module =
            (if \<not> args_cpu a \<and> args_n_GPUs a > 1 then DataParallel ms else ModuleList ms),
          intensity_loss = args_intensity_loss a,
          normalize = args_normalized_loss a,
          rgb_range = real_of_int (args_rgb_range a),
          intensity_conv =
            (if args_intensity_loss a then
               Some (if args_rgb_range a = 255 then luma else (0, 0, 0))
             else None),
          log_tensor = [],
          heap = h\<rparr>)"

definition Loss_init ::
  "('t, 'm, 'sd) ext \<Rightarrow> args \<Rightarrow> 'sd checkpoint \<Rightarrow> error + 'm Loss" where
  "Loss_init env a ckp =
     (if args_intensity_loss a \<and> args_rgb_range a \<noteq> 255 \<and> args_rgb_range a = 1
      then Inl NotImplementedError
      else
        (case init_terms env a (split_on (CHR ''+'') (args_loss a)) ([], None, []) of
           Inl e \<Rightarrow> Inl e
         | Inr (ls, loss_function, h) \<Rightarrow>
             (if args_load a \<noteq> ''.'' then load env (init_object a ls h) ckp (args_cpu a)
              else Inr (init_object a ls h))))"

subsection \<open>\<^verbatim>\<open>Loss.forward\<close>\<close>

text \<open>
  \<^verbatim>\<open>self.log[-1, i]\<close> exists when the log has a row and the last row has a column \<open>i\<close>;
  otherwise the subscript raises \<^verbatim>\<open>IndexError\<close>. \<open>log_add\<close> is \<^verbatim>\<open>self.log[-1, i] += v\<close>.
\<close>

definition log_index_ok :: "real list list \<Rightarrow> nat \<Rightarrow> bool" where
  "log_index_ok lg i = (lg \<noteq> [] \<and> i < length (last lg))"

definition log_add :: "real list list \<Rightarrow> nat \<Rightarrow> real \<Rightarrow> real list list" where
  "log_add lg i v = butlast lg @ [(last lg)[i := last lg ! i + v]]"

text \<open>\<^verbatim>\<open>xs[i - 1]\<close> for \<open>i\<close> below the length: the index \<^verbatim>\<open>-1\<close> is the last element.\<close>

definition py_prev :: "'a list \<Rightarrow> nat \<Rightarrow> 'a" where
  "py_prev xs i = (if i = 0 then last xs else xs ! (i - 1))"

text \<open>
  The optional intensity projection and the optional normalization of both inputs.
\<close>

definition project ::
  "('t, 'm, 'sd) ext \<Rightarrow> 'm Loss \<Rightarrow> 't \<Rightarrow> 't \<Rightarrow> error + ('t \<times> 't)" where
  "project env self sr hr =
     (if intensity_loss self then
        (case intensity_conv self of
           None \<Rightarrow> Inl AttributeError
         | Some k \<Rightarrow>
             (case conv2d env sr k of
                Inl e \<Rightarrow> Inl e
              | Inr sr' \<Rightarrow>
                  (case conv2d env hr k of
                     Inl e \<Rightarrow> Inl e
                   | Inr hr' \<Rightarrow> Inr (sr', hr'))))
      else Inr (sr, hr))"

definition normalized :: "('t, 'm, 'sd) ext \<Rightarrow> 'm Loss \<Rightarrow> 't \<times> 't \<Rightarrow> 't \<times> 't" where
  "normalized env self p =
     (if normalize self
      then (tdiv env (fst p) (rgb_range self), tdiv env (snd p) (rgb_range self))
      else p)"

text \<open>
  The body of \<^verbatim>\<open>for i, l in enumerate(self.loss)\<close> at index \<open>i\<close> and entry \<open>l\<close>. The loop
  state is the list \<^verbatim>\<open>losses\<close>, the log and the store; the state at an exception is kept,
  as the object keeps what the loop had written. In an augmented assignment the
  subscript is read before the right-hand side is evaluated.
\<close>

definition forward_term ::
  "('t, 'm, 'sd) ext \<Rightarrow> entry list \<Rightarrow> 't \<Rightarrow> 't \<Rightarrow> nat \<Rightarrow> entry
     \<Rightarrow> real list \<times> real list list \<times> 'm list
     \<Rightarrow> (real list \<times> real list list \<times> 'm list) \<times> error option" where
  "forward_term env ls sr hr i l s =
     (case s of (losses, lg, h) \<Rightarrow>
       (case l_function l of
          Some f \<Rightarrow>
            (case call env (h ! f) sr hr of
               Inl e \<Rightarrow> ((losses, lg, h), Some e)
             | Inr (v, m) \<Rightarrow>
                 (let effective_loss = l_weight l * v in
                  if log_index_ok lg i
                  then ((losses @ [effective_loss], log_add lg i effective_loss, h[f := m]), None)
                  else ((losses @ [effective_loss], lg, h[f := m]), Some IndexError)))
        | None \<Rightarrow>
            (if l_type l = ''DIS'' then
               (if \<not> log_index_ok lg i then ((losses, lg, h), Some IndexError)
                else (case l_function (py_prev ls i) of
                        None \<Rightarrow> ((losses, lg, h), Some AttributeError)
                      | Some g \<Rightarrow>
                          (case loss_attr env (h ! g) of
                             None \<Rightarrow> ((losses, lg, h), Some AttributeError)
                           | Some d \<Rightarrow> ((losses, log_add lg i d, h), None))))
             else ((losses, lg, h), None))))"

text \<open>The loop from index \<open>i\<close> over the entries left; it stops at the first exception.\<close>

fun forward_terms ::
  "('t, 'm, 'sd) ext \<Rightarrow> entry list \<Rightarrow> 't \<Rightarrow> 't \<Rightarrow> nat \<Rightarrow> entry list
     \<Rightarrow> real list \<times> real list list \<times> 'm list
     \<Rightarrow> (real list \<times> real list list \<times> 'm list) \<times> error option" where
  "forward_terms env ls sr hr i [] s = (s, None)"
| "forward_terms env ls sr hr i (l # rest) s =
     (case forward_term env ls sr hr i l s of
        (s', Some e) \<Rightarrow> (s', Some e)
      | (s', None) \<Rightarrow> forward_terms env ls sr hr (Suc i) rest s')"

text \<open>
  \<^verbatim>\<open>forward(sr, hr)\<close>: the object after the call, and the returned scalar or the
  exception. \<^verbatim>\<open>sum(losses)\<close> adds from the left, starting at 0; on an empty list it is the
  integer 0, which has no \<^verbatim>\<open>.item()\<close>.
\<close>

definition forward ::
  "('t, 'm, 'sd) ext \<Rightarrow> 'm Loss \<Rightarrow> 't \<Rightarrow> 't \<Rightarrow> 'm Loss \<times> (error + real)" where
  "forward env self sr hr =
     (case project env self sr hr of
        Inl e \<Rightarrow> (self, Inl e)
      | Inr p \<Rightarrow>
          (case forward_terms env (loss self) (fst (normalized env self p))
                  (snd (normalized env self p)) 0 (loss self)
                  ([], log_tensor self, heap self) of
             ((losses, lg, h), Some e) \<Rightarrow> (self\<lparr>log_tensor := lg, heap := h\<rparr>, Inl e)
           | ((losses, lg, h), None) \<Rightarrow>
               (let loss_sum = foldl (+) 0 losses;
                    self' = self\<lparr>log_tensor := lg, heap := h\<rparr>
                in if length (loss self) > 1 then
                     (if lg = [] \<or> last lg = [] then (self', Inl IndexError)
                      else if losses = [] then (self', Inl AttributeError)
                      else (self'\<lparr>log_tensor := log_add lg (length (last lg) - 1) loss_sum\<rparr>,
                            Inr loss_sum))
                   else (self', Inr loss_sum))))"

subsection \<open>\<^verbatim>\<open>Loss.start_log\<close> and \<^verbatim>\<open>Loss.end_log\<close>\<close>

text \<open>
  \<^verbatim>\<open>torch.cat((self.log, torch.zeros(1, n)))\<close>: the empty \<^verbatim>\<open>torch.Tensor()\<close> is skipped;
  otherwise the widths must agree (every row of a tensor has the tensor's width), or
  \<^verbatim>\<open>cat\<close> raises \<^verbatim>\<open>RuntimeError\<close> and the log stays as it was.
\<close>

definition start_log :: "'m Loss \<Rightarrow> error + 'm Loss" where
  "start_log self =
     (if list_all (\<lambda>row. length row = length (loss self)) (log_tensor self)
      then Inr (self\<lparr>log_tensor := log_tensor self @ [replicate (length (loss self)) 0]\<rparr>)
      else Inl RuntimeError)"

text \<open>
  \<^verbatim>\<open>self.log[-1].div_(n_batches)\<close>. The quotient is the one of the reals; \<open>n_batches = 0\<close>,
  where the tensor would hold infinities, is outside what the reals model.
\<close>

definition end_log :: "'m Loss \<Rightarrow> real \<Rightarrow> error + 'm Loss" where
  "end_log self n_batches =
     (if log_tensor self = [] then Inl IndexError
      else Inr (self\<lparr>log_tensor :=
                  butlast (log_tensor self) @ [map (\<lambda>x. x / n_batches) (last (log_tensor self))]\<rparr>))"

subsection \<open>Sequences of calls\<close>

text \<open>
  A caller's sequence of \<^verbatim>\<open>start_log\<close>, \<^verbatim>\<open>forward\<close> and \<^verbatim>\<open>end_log\<close> calls. A call that raises
  leaves the object as the exception found it, and the sequence goes on from there.
\<close>

datatype 't operation = Start_log | Forward 't 't | End_log real

fun exec :: "('t, 'm, 'sd) ext \<Rightarrow> 'm Loss \<Rightarrow> 't operation \<Rightarrow> 'm Loss" where
  "exec env self Start_log = (case start_log self of Inl e \<Rightarrow> self | Inr self' \<Rightarrow> self')"
| "exec env self (Forward sr hr) = fst (forward env self sr hr)"
| "exec env self (End_log n) = (case end_log self n of Inl e \<Rightarrow> self | Inr self' \<Rightarrow> self')"

definition run :: "('t, 'm, 'sd) ext \<Rightarrow> 'm Loss \<Rightarrow> 't operation list \<Rightarrow> 'm Loss" where
  "run env self ops = foldl (exec env) self ops"

text \<open>The invariant of the log matrix: every row has one column per loss entry.\<close>

definition log_inv :: "'m Loss \<Rightarrow> bool" where
  "log_inv self = list_all (\<lambda>row. length row = length (loss self)) (log_tensor self)"

subsection \<open>The weighted sum, as the specification words it\<close>

text \<open>
  The entries with a callable, as pairs of weight and address, and the weighted values
  of calling them one after the other on the same inputs. \<open>None\<close> when a call raises.
\<close>

definition callables :: "entry list \<Rightarrow> (real \<times> nat) list" where
  "callables ls = List.map_filter (\<lambda>l. map_option (Pair (l_weight l)) (l_function l)) ls"

fun weighted_values ::
  "('t, 'm, 'sd) ext \<Rightarrow> 't \<Rightarrow> 't \<Rightarrow> (real \<times> nat) list \<Rightarrow> 'm list \<Rightarrow> real list option" where
  "weighted_values env sr hr [] h = Some []"
| "weighted_values env sr hr ((w, f) # cs) h =
     (case call env (h ! f) sr hr of
        Inl e \<Rightarrow> None
      | Inr (v, m) \<Rightarrow> map_option ((#) (w * v)) (weighted_values env sr hr cs (h[f := m])))"

subsection \<open>A concrete environment\<close>

text \<open>
  An instance of \<open>ext\<close> on which the definitions can be evaluated: unsigned decimal
  literals for \<^verbatim>\<open>float\<close>, an image of one pixel (the list of its channels) for a tensor,
  and a sub-module that records its constructor call, the steps of its scheduler (if it
  has one) and its \<^verbatim>\<open>.loss\<close> attribute (if it has one).
\<close>

definition digit_of :: "char \<Rightarrow> nat option" where
  "digit_of =
     map_of [(CHR ''0'', 0), (CHR ''1'', 1), (CHR ''2'', 2), (CHR ''3'', 3), (CHR ''4'', 4),
             (CHR ''5'', 5), (CHR ''6'', 6), (CHR ''7'', 7), (CHR ''8'', 8), (CHR ''9'', 9)]"

fun digits_val :: "nat \<Rightarrow> string \<Rightarrow> nat option" where
  "digits_val acc [] = Some acc"
| "digits_val acc (c # cs) =
     (case digit_of c of None \<Rightarrow> None | Some d \<Rightarrow> digits_val (10 * acc + d) cs)"

definition decimal_float :: "string \<Rightarrow> real option" where
  "decimal_float s =
     (case split_on (CHR ''.'') s of
        [ip] \<Rightarrow> (if ip = [] then None else map_option real (digits_val 0 ip))
      | [ip, fp] \<Rightarrow>
          (if ip = [] \<and> fp = [] then None
           else (case (digits_val 0 ip, digits_val 0 fp) of
                   (Some i, Some f) \<Rightarrow> Some (real i + real f / 10 ^ length fp)
                 | _ \<Rightarrow> None))
      | _ \<Rightarrow> None)"

record sample_module =
  sm_ctor :: loss_ctor
  sm_steps :: "nat option"
  sm_loss :: "real option"

definition sample_construct :: "loss_ctor \<Rightarrow> error + sample_module" where
  "sample_construct c =
     (case c of
        Adversarial a k \<Rightarrow> Inr \<lparr>sm_ctor = c, sm_steps = Some 0, sm_loss = Some 0\<rparr>
      | _ \<Rightarrow> Inr \<lparr>sm_ctor = c, sm_steps = None, sm_loss = None\<rparr>)"

definition sample_call ::
  "sample_module \<Rightarrow> real list \<Rightarrow> real list \<Rightarrow> error + (real \<times> sample_module)" where
  "sample_call m sr hr =
     (if length sr \<noteq> length hr then Inl RuntimeError
      else (case sm_ctor m of
              MSELoss \<Rightarrow> Inr ((\<Sum>(x, y) \<leftarrow> zip sr hr. (x - y)\<^sup>2) / real (length sr), m)
            | Adversarial a k \<Rightarrow> Inr (1, m\<lparr>sm_loss := Some 2\<rparr>)
            | _ \<Rightarrow> Inr ((\<Sum>(x, y) \<leftarrow> zip sr hr. \<bar>x - y\<bar>) / real (length sr), m)))"

definition sample_conv2d :: "real list \<Rightarrow> real \<times> real \<times> real \<Rightarrow> error + real list" where
  "sample_conv2d t k =
     (case (t, k) of
        ([r, g, b], (kr, kg, kb)) \<Rightarrow> Inr [kr * r + kg * g + kb * b]
      | _ \<Rightarrow> Inl RuntimeError)"

definition sample_ext :: "(real list, sample_module, unit) ext" where
  "sample_ext =
     \<lparr>pyfloat = decimal_float,
      construct = sample_construct,
      call = sample_call,
      loss_attr = sm_loss,
      has_scheduler = (\<lambda>m. sm_steps m \<noteq> None),
      scheduler_step = (\<lambda>m. m\<lparr>sm_steps := map_option Suc (sm_steps m)\<rparr>),
      conv2d = sample_conv2d,
      tdiv = (\<lambda>t r. map (\<lambda>x. x / r) t),
      load_state_dict = (\<lambda>sd h. Inr h)\<rparr>"

definition sample_args :: "string \<Rightarrow> args" where
  "sample_args s =
     \<lparr>args_n_GPUs = 1, args_intensity_loss = False, args_normalized_loss = False,
      args_rgb_range = 255, args_loss = s, args_n_channel_out = 3, args_cpu = True,
      args_patch_size = 48, args_batch_size = 16, args_precision = ''single'',
      args_load = ''.''\<rparr>"

definition no_checkpoint :: "unit checkpoint" where
  "no_checkpoint = \<lparr>loss_pt = None, loss_log_pt = None\<rparr>"

text \<open>The object that the configuration \<^verbatim>\<open>"1*MSE+0.5*L1"\<close> builds in the sample environment.\<close>

definition sample_loss :: "sample_module Loss" where
  "sample_loss =
     \<lparr>n_GPUs = 1,
      loss = [\<lparr>l_type = ''MSE'', l_weight = 1, l_function = Some 0\<rparr>,
              \<lparr>l_type = ''L1'', l_weight = 1 / 2, l_function = Some 1\<rparr>,
              Total_entry],
      loss_module = ModuleList [0, 1],
      intensity_loss = False, normalize = False, rgb_range = 255,
      intensity_conv = None, log_tensor = [],
      heap = [\<lparr>sm_ctor = MSELoss, sm_steps = None, sm_loss = None\<rparr>,
              \<lparr>sm_ctor = L1Loss, sm_steps = None, sm_loss = None\<rparr>]\<rparr>"

text \<open>The sample configuration with one MSE term under the intensity projection.\<close>

definition intensity_args :: "int \<Rightarrow> args" where
  "intensity_args r = (sample_args ''1*MSE'')\<lparr>args_intensity_loss := True, args_rgb_range := r\<rparr>"

text \<open>
  An adversarial term on two GPUs: the configuration, the object it builds (its module
  list wrapped in \<^verbatim>\<open>DataParallel\<close>), and a checkpoint with one logged epoch.
\<close>

definition gpu_args :: args where
  "gpu_args = (sample_args ''1*GAN'')\<lparr>args_cpu := False, args_n_GPUs := 2\<rparr>"

definition gpu_loss :: "sample_module Loss" where
  "gpu_loss =
     \<lparr>n_GPUs = 2,
      loss = [\<lparr>l_type = ''GAN'', l_weight = 1, l_function = Some 0\<rparr>, DIS_entry, Total_entry],
      loss_module = DataParallel [0],
      intensity_loss = False, normalize = False, rgb_range = 255,
      intensity_conv = None, log_tensor = [],
      heap = [\<lparr>sm_ctor = Adversarial gpu_args ''GAN'', sm_steps = Some 0, sm_loss = Some 0\<rparr>]\<rparr>"

definition one_epoch :: "unit checkpoint" where
  "one_epoch = \<lparr>loss_pt = Some (), loss_log_pt = Some [[1, 2, 3]]\<rparr>"

subsection \<open>Malformed terms\<close>

text \<open>
  A term of the configuration on which \<^verbatim>\<open>weight, loss_type = loss.split('*')\<close> or
  \<^verbatim>\<open>float(weight)\<close> raises: it does not split into two fields, or its first field is no
  float.
\<close>

definition malformed :: "('t, 'm, 'sd) ext \<Rightarrow> string \<Rightarrow> bool" where
  "malformed env t =
     (case split_on (CHR ''*'') t of
        [weight, loss_type] \<Rightarrow> pyfloat env weight = None
      | _ \<Rightarrow> True)"

subsection \<open>Addresses\<close>

text \<open>
  The loop state of the constructor holds no address beyond the store: the callable of
  every entry, and the variable \<^verbatim>\<open>loss_function\<close> when bound, is an object of the store.
\<close>

definition bound :: "entry list \<times> nat option \<times> 'm list \<Rightarrow> bool" where
  "bound s =
     (case s of (ls, lf, h) \<Rightarrow>
        list_all (\<lambda>l. case l_function l of None \<Rightarrow> True | Some f \<Rightarrow> f < length h) ls
        \<and> (case lf of None \<Rightarrow> True | Some f \<Rightarrow> f < length h))"

section \<open>Construction\<close>

text \<open>\<^verbatim>\<open>load\<close> replaces the log and the store and nothing else.\<close>

lemma load_fields:
  assumes "load env self ckp cpu = Inr self'"
  shows "loss self' = loss self \<and> loss_module self' = loss_module self
     \<and> intensity_loss self' = intensity_loss self \<and> intensity_conv self' = intensity_conv self
     \<and> normalize self' = normalize self \<and> rgb_range self' = rgb_range self
     \<and> n_GPUs self' = n_GPUs self"
  using assms by (auto simp: load_def split: option.splits sum.splits)

lemma init_object_fields:
  "loss (init_object a ls h) = (if length ls > 1 then ls @ [Total_entry] else ls)"
  "intensity_loss (init_object a ls h) = args_intensity_loss a"
  "intensity_conv (init_object a ls h) =
     (if args_intensity_loss a then Some (if args_rgb_range a = 255 then luma else (0, 0, 0))
      else None)"
  "log_tensor (init_object a ls h) = []"
  "heap (init_object a ls h) = h"
  by (simp_all add: init_object_def Let_def)

text \<open>
  A successful construction went through the loop, and its loss list and projection
  fields are those of the object the loop left.
\<close>

lemma Loss_init_Inr:
  assumes "Loss_init env a ckp = Inr self"
  obtains ls lf h where
    "init_terms env a (split_on (CHR ''+'') (args_loss a)) ([], None, []) = Inr (ls, lf, h)"
    "loss self = loss (init_object a ls h)"
    "intensity_loss self = intensity_loss (init_object a ls h)"
    "intensity_conv self = intensity_conv (init_object a ls h)"
    "args_load a = ''.'' \<longrightarrow> self = init_object a ls h"
proof (cases "init_terms env a (split_on (CHR ''+'') (args_loss a)) ([], None, [])")
  case (Inl e)
  with assms show ?thesis
    by (simp add: Loss_init_def split: if_splits)
next
  case (Inr s)
  obtain ls lf h where s: "s = (ls, lf, h)"
    by (cases s) auto
  show ?thesis
  proof (cases "args_load a = ''.''")
    case True
    with assms Inr s have "self = init_object a ls h"
      by (simp add: Loss_init_def split: if_splits)
    with Inr s True that show ?thesis
      by blast
  next
    case False
    with assms Inr s have "load env (init_object a ls h) ckp (args_cpu a) = Inr self"
      by (simp add: Loss_init_def split: if_splits)
    from load_fields [OF this] Inr s False that show ?thesis
      by blast
  qed
qed

lemma Loss_init_fresh:
  assumes "init_terms env a (split_on (CHR ''+'') (args_loss a)) ([], None, []) = Inr (ls, lf, h)"
    and "\<not> (args_intensity_loss a \<and> args_rgb_range a = 1)" and "args_load a = ''.''"
  shows "Loss_init env a ckp = Inr (init_object a ls h)"
  using assms by (auto simp: Loss_init_def)

lemma Loss_init_Inl:
  assumes "init_terms env a (split_on (CHR ''+'') (args_loss a)) ([], None, []) = Inl e"
  shows "\<exists>e'. Loss_init env a ckp = Inl e'"
  using assms by (simp add: Loss_init_def)

lemma select_GAN: "select_ctor a ''GAN'' = Some (Adversarial a ''GAN'')"
  by (simp add: select_ctor_def)

text \<open>
  C1, as the code has it. The test \<^verbatim>\<open>len(self.loss) > 1\<close> counts the entries of the list,
  the synthetic \<^verbatim>\<open>'DIS'\<close> entry among them. So the configuration \<^verbatim>\<open>"1*GAN"\<close> yields three
  entries: the adversarial term with weight 1, the \<^verbatim>\<open>'DIS'\<close> entry with weight 1 and no
  callable, and a \<^verbatim>\<open>'Total'\<close> entry with weight 0 and no callable. Every successful
  construction has this list, and a construction that loads no checkpoint succeeds
  when the adversarial sub-module can be built.
\<close>

theorem init_GAN_entries:
  assumes cfg: "args_loss a = ''1*GAN''" and w: "pyfloat env ''1'' = Some 1"
  shows "(\<forall>self. Loss_init env a ckp = Inr self \<longrightarrow>
            loss self = [\<lparr>l_type = ''GAN'', l_weight = 1, l_function = Some 0\<rparr>,
                         DIS_entry, Total_entry])
       \<and> ((\<exists>m. construct env (Adversarial a ''GAN'') = Inr m)
            \<and> \<not> (args_intensity_loss a \<and> args_rgb_range a = 1) \<and> args_load a = ''.''
          \<longrightarrow> (\<exists>self. Loss_init env a ckp = Inr self))"
proof (cases "construct env (Adversarial a ''GAN'')")
  case (Inl e)
  then have "init_terms env a (split_on (CHR ''+'') (args_loss a)) ([], None, []) = Inl e"
    by (simp add: cfg init_term_def select_GAN)
  from Loss_init_Inl [OF this, of ckp] Inl show ?thesis
    by auto
next
  case (Inr m)
  then have t: "init_terms env a (split_on (CHR ''+'') (args_loss a)) ([], None, []) =
      Inr ([\<lparr>l_type = ''GAN'', l_weight = 1, l_function = Some 0\<rparr>, DIS_entry], Some 0, [m])"
    by (simp add: cfg init_term_def select_GAN w)
  have "loss self = [\<lparr>l_type = ''GAN'', l_weight = 1, l_function = Some 0\<rparr>,
                     DIS_entry, Total_entry]"
    if "Loss_init env a ckp = Inr self" for self
    using Loss_init_Inr [OF that] t by (auto simp: init_object_fields)
  moreover have "\<exists>self. Loss_init env a ckp = Inr self"
    if "\<not> (args_intensity_loss a \<and> args_rgb_range a = 1)" and "args_load a = ''.''"
    using Loss_init_fresh [OF t that] by blast
  ultimately show ?thesis
    by blast
qed

theorem init_GAN_entries_witness:
  "\<exists>self. Loss_init sample_ext (sample_args ''1*GAN'') no_checkpoint = Inr self
      \<and> loss self = [\<lparr>l_type = ''GAN'', l_weight = 1, l_function = Some 0\<rparr>,
                      DIS_entry, Total_entry]"
proof -
  have cfg: "args_loss (sample_args ''1*GAN'') = ''1*GAN''"
    and ok: "\<not> (args_intensity_loss (sample_args ''1*GAN'')
               \<and> args_rgb_range (sample_args ''1*GAN'') = 1)"
    and fresh: "args_load (sample_args ''1*GAN'') = ''.''"
    by (simp_all add: sample_args_def)
  have w: "pyfloat sample_ext ''1'' = Some 1"
    by (simp add: sample_ext_def decimal_float_def digit_of_def)
  have c: "\<exists>m. construct sample_ext (Adversarial (sample_args ''1*GAN'') ''GAN'') = Inr m"
    by (simp add: sample_ext_def sample_construct_def)
  from init_GAN_entries [OF cfg w, of no_checkpoint] c ok fresh show ?thesis
    by blast
qed

text \<open>
  The claim as worded (exactly two entries, no \<^verbatim>\<open>'Total'\<close>) fails at \<^verbatim>\<open>"1*GAN"\<close>: the list
  has three entries and ends with \<^verbatim>\<open>'Total'\<close>.
\<close>

theorem init_GAN_has_Total:
  "map_sum id loss (Loss_init sample_ext (sample_args ''1*GAN'') no_checkpoint) =
     Inr [\<lparr>l_type = ''GAN'', l_weight = 1, l_function = Some 0\<rparr>, DIS_entry, Total_entry]
   \<and> map_sum id (length \<circ> loss) (Loss_init sample_ext (sample_args ''1*GAN'') no_checkpoint)
       \<noteq> Inr 2"
  by (simp add: Loss_init_def init_object_def sample_args_def sample_ext_def init_term_def
     select_ctor_def sample_construct_def decimal_float_def digit_of_def List.map_filter_def)

lemma select_MSE: "select_ctor a ''MSE'' = Some MSELoss"
  by (simp add: select_ctor_def)

lemma select_L1: "select_ctor a ''L1'' = Some L1Loss"
  by (simp add: select_ctor_def)

text \<open>
  C6. With \<^verbatim>\<open>float("1") = 1.0\<close> and \<^verbatim>\<open>float("0.5") = 0.5\<close>, the configuration
  \<^verbatim>\<open>"1*MSE+0.5*L1"\<close> yields, in this order, an MSE term with weight 1 and its callable, an
  L1 term with weight 0.5 and its callable, and one \<^verbatim>\<open>'Total'\<close> entry with weight 0 and no
  callable; there is no \<^verbatim>\<open>'DIS'\<close> entry. Every successful construction has this list, and
  a construction that loads no checkpoint succeeds when both sub-modules can be built.
\<close>

theorem init_MSE_L1_entries:
  assumes cfg: "args_loss a = ''1*MSE+0.5*L1''"
    and w1: "pyfloat env ''1'' = Some 1" and w2: "pyfloat env ''0.5'' = Some (1 / 2)"
  shows "(\<forall>self. Loss_init env a ckp = Inr self \<longrightarrow>
            loss self = [\<lparr>l_type = ''MSE'', l_weight = 1, l_function = Some 0\<rparr>,
                         \<lparr>l_type = ''L1'', l_weight = 1 / 2, l_function = Some 1\<rparr>,
                         Total_entry])
       \<and> ((\<exists>m. construct env MSELoss = Inr m) \<and> (\<exists>m. construct env L1Loss = Inr m)
            \<and> \<not> (args_intensity_loss a \<and> args_rgb_range a = 1) \<and> args_load a = ''.''
          \<longrightarrow> (\<exists>self. Loss_init env a ckp = Inr self))"
proof -
  have s: "split_on (CHR ''+'') (args_loss a) = [''1*MSE'', ''0.5*L1'']"
    by (simp add: cfg)
  show ?thesis
  proof (cases "construct env MSELoss")
    case (Inl e)
    then have "init_terms env a (split_on (CHR ''+'') (args_loss a)) ([], None, []) = Inl e"
      by (simp add: s init_term_def select_MSE)
    from Loss_init_Inl [OF this, of ckp] Inl show ?thesis
      by auto
  next
    case m1: (Inr m1)
    show ?thesis
    proof (cases "construct env L1Loss")
      case (Inl e)
      then have "init_terms env a (split_on (CHR ''+'') (args_loss a)) ([], None, []) = Inl e"
        using m1 by (simp add: s init_term_def select_MSE select_L1 w1)
      from Loss_init_Inl [OF this, of ckp] Inl show ?thesis
        by auto
    next
      case m2: (Inr m2)
      have t: "init_terms env a (split_on (CHR ''+'') (args_loss a)) ([], None, []) =
          Inr ([\<lparr>l_type = ''MSE'', l_weight = 1, l_function = Some 0\<rparr>,
                \<lparr>l_type = ''L1'', l_weight = 1 / 2, l_function = Some 1\<rparr>], Some 1, [m1, m2])"
        using m1 m2 by (simp add: s init_term_def select_MSE select_L1 w1 w2)
      have "loss self = [\<lparr>l_type = ''MSE'', l_weight = 1, l_function = Some 0\<rparr>,
                         \<lparr>l_type = ''L1'', l_weight = 1 / 2, l_function = Some 1\<rparr>,
                         Total_entry]"
        if "Loss_init env a ckp = Inr self" for self
        using Loss_init_Inr [OF that] t by (auto simp: init_object_fields)
      moreover have "\<exists>self. Loss_init env a ckp = Inr self"
        if "\<not> (args_intensity_loss a \<and> args_rgb_range a = 1)" and "args_load a = ''.''"
        using Loss_init_fresh [OF t that] by blast
      ultimately show ?thesis
        by blast
    qed
  qed
qed

theorem init_MSE_L1_entries_witness:
  "\<exists>self. Loss_init sample_ext (sample_args ''1*MSE+0.5*L1'') no_checkpoint = Inr self
      \<and> loss self = [\<lparr>l_type = ''MSE'', l_weight = 1, l_function = Some 0\<rparr>,
                      \<lparr>l_type = ''L1'', l_weight = 1 / 2, l_function = Some 1\<rparr>,
                      Total_entry]"
proof -
  let ?a = "sample_args ''1*MSE+0.5*L1''"
  have cfg: "args_loss ?a = ''1*MSE+0.5*L1''"
    and ok: "\<not> (args_intensity_loss ?a \<and> args_rgb_range ?a = 1)"
    and fresh: "args_load ?a = ''.''"
    by (simp_all add: sample_args_def)
  have w1: "pyfloat sample_ext ''1'' = Some 1"
    and w2: "pyfloat sample_ext ''0.5'' = Some (1 / 2)"
    by (simp_all add: sample_ext_def decimal_float_def digit_of_def)
  have c: "\<exists>m. construct sample_ext MSELoss = Inr m" "\<exists>m. construct sample_ext L1Loss = Inr m"
    by (simp_all add: sample_ext_def sample_construct_def)
  from init_MSE_L1_entries [OF cfg w1 w2, of no_checkpoint] c ok fresh show ?thesis
    by blast
qed

subsection \<open>Kinds that no branch recognizes\<close>

text \<open>
  A kind that no branch of the chain recognizes fails in the first term only: there
  \<^verbatim>\<open>loss_function\<close> is unbound when the dictionary is built (or \<^verbatim>\<open>float\<close> has raised
  before).
\<close>

lemma init_unknown_first_kind_fails:
  assumes "split_on (CHR ''+'') (args_loss a) = t # ts"
    and "split_on (CHR ''*'') t = [w, k]" and "select_ctor a k = None"
  shows "\<exists>e. Loss_init env a ckp = Inl e"
  using assms
  by (auto simp: Loss_init_def init_term_def split: option.splits)

text \<open>
  C2 at the configuration \<^verbatim>\<open>"1*MSE+1*Foo"\<close>. The kind \<^verbatim>\<open>Foo\<close> matches no branch, and the
  construction returns an object all the same: in the second iteration \<^verbatim>\<open>loss_function\<close>
  still holds the \<^verbatim>\<open>MSELoss\<close> of the first, and the entry \<^verbatim>\<open>'Foo'\<close> is appended with that
  callable (the same object, twice in the module list).
\<close>

theorem init_unknown_later_kind_constructs:
  "Loss_init sample_ext (sample_args ''1*MSE+1*Foo'') no_checkpoint =
     Inr \<lparr>n_GPUs = 1,
          loss = [\<lparr>l_type = ''MSE'', l_weight = 1, l_function = Some 0\<rparr>,
                  \<lparr>l_type = ''Foo'', l_weight = 1, l_function = Some 0\<rparr>,
                  Total_entry],
          loss_module = ModuleList [0, 0],
          intensity_loss = False, normalize = False, rgb_range = 255,
          intensity_conv = None, log_tensor = [],
          heap = [\<lparr>sm_ctor = MSELoss, sm_steps = None, sm_loss = None\<rparr>]\<rparr>"
  by (simp add: Loss_init_def init_object_def sample_args_def sample_ext_def init_term_def
     select_ctor_def sample_construct_def decimal_float_def digit_of_def List.map_filter_def
     Total_entry_def)

subsection \<open>The intensity projection\<close>

text \<open>
  With the projection configured and both convolutions defined, \<^verbatim>\<open>forward\<close> is \<^verbatim>\<open>forward\<close>
  without the projection on the projected tensors.
\<close>

lemma forward_projected:
  assumes "intensity_loss self" and "intensity_conv self = Some k"
    and "conv2d env sr k = Inr sr'" and "conv2d env hr k = Inr hr'"
  shows "forward env self sr hr =
           apfst (\<lambda>s. s\<lparr>intensity_loss := True\<rparr>)
             (forward env (self\<lparr>intensity_loss := False\<rparr>) sr' hr')"
  using assms
  by (auto simp: forward_def project_def normalized_def Let_def
      split: prod.splits option.splits)

text \<open>
  C3, as the code has it. Under the intensity projection a colour range of 1 raises
  \<^verbatim>\<open>NotImplementedError\<close> in the constructor. With a colour range of 255 the kernel holds
  the luma weights 0.299, 0.587 and 0.114, and \<^verbatim>\<open>forward\<close> convolves both the predicted and
  the target tensor with it before the terms see them.
\<close>

theorem init_intensity_projection:
  assumes "args_intensity_loss a"
  shows "(args_rgb_range a = 1 \<longrightarrow> Loss_init env a ckp = Inl NotImplementedError)
    \<and> (args_rgb_range a = 255 \<longrightarrow>
         (\<forall>self. Loss_init env a ckp = Inr self \<longrightarrow>
            intensity_loss self \<and> intensity_conv self = Some luma
            \<and> (\<forall>sr hr sr' hr'.
                  conv2d env sr luma = Inr sr' \<and> conv2d env hr luma = Inr hr' \<longrightarrow>
                  forward env self sr hr =
                    apfst (\<lambda>s. s\<lparr>intensity_loss := True\<rparr>)
                      (forward env (self\<lparr>intensity_loss := False\<rparr>) sr' hr'))))"
proof (intro conjI impI allI)
  assume "args_rgb_range a = 1"
  with assms show "Loss_init env a ckp = Inl NotImplementedError"
    by (simp add: Loss_init_def)
next
  fix self
  assume r: "args_rgb_range a = 255" and i: "Loss_init env a ckp = Inr self"
  from Loss_init_Inr [OF i] assms r
  show il: "intensity_loss self" and ic: "intensity_conv self = Some luma"
    by (auto simp: init_object_fields)
  fix sr hr sr' hr'
  assume "conv2d env sr luma = Inr sr' \<and> conv2d env hr luma = Inr hr'"
  with il ic show "forward env self sr hr =
      apfst (\<lambda>s. s\<lparr>intensity_loss := True\<rparr>)
        (forward env (self\<lparr>intensity_loss := False\<rparr>) sr' hr')"
    by (simp add: forward_projected)
qed


theorem init_intensity_projection_witness:
  "Loss_init sample_ext (intensity_args 1) no_checkpoint = Inl NotImplementedError
   \<and> (\<exists>self. Loss_init sample_ext (intensity_args 255) no_checkpoint = Inr self
        \<and> intensity_conv self = Some luma
        \<and> forward sample_ext self [255, 255, 255] [0, 0, 0] =
            apfst (\<lambda>s. s\<lparr>intensity_loss := True\<rparr>)
              (forward sample_ext (self\<lparr>intensity_loss := False\<rparr>) [255] [0]))"
proof -
  have i: "args_intensity_loss (intensity_args r)" for r
    by (simp add: intensity_args_def sample_args_def)
  have r: "args_rgb_range (intensity_args r) = r" for r
    by (simp add: intensity_args_def sample_args_def)
  obtain self where ex: "Loss_init sample_ext (intensity_args 255) no_checkpoint = Inr self"
    by (simp add: Loss_init_def intensity_args_def sample_args_def sample_ext_def init_term_def
        select_ctor_def sample_construct_def decimal_float_def digit_of_def)
  have c: "conv2d sample_ext [255, 255, 255] luma = Inr [255]
         \<and> conv2d sample_ext [0, 0, 0] luma = Inr [0]"
    by (simp add: sample_ext_def sample_conv2d_def luma_def)
  have one: "Loss_init sample_ext (intensity_args 1) no_checkpoint = Inl NotImplementedError"
    using init_intensity_projection [OF i, of 1 sample_ext no_checkpoint] r by simp
  have two: "intensity_conv self = Some luma
      \<and> forward sample_ext self [255, 255, 255] [0, 0, 0] =
            apfst (\<lambda>s. s\<lparr>intensity_loss := True\<rparr>)
              (forward sample_ext (self\<lparr>intensity_loss := False\<rparr>) [255] [0])"
    using init_intensity_projection [OF i, of 255 sample_ext no_checkpoint] r ex c by simp
  from one two ex show ?thesis
    by blast
qed

text \<open>
  The claim as worded (every colour range other than 255 raises) fails at 300: the
  constructor returns an object, and its kernel is all zeros.
\<close>

theorem init_intensity_other_range:
  "Loss_init sample_ext (intensity_args 300) no_checkpoint =
     Inr \<lparr>n_GPUs = 1,
          loss = [\<lparr>l_type = ''MSE'', l_weight = 1, l_function = Some 0\<rparr>],
          loss_module = ModuleList [0],
          intensity_loss = True, normalize = False, rgb_range = 300,
          intensity_conv = Some (0, 0, 0), log_tensor = [],
          heap = [\<lparr>sm_ctor = MSELoss, sm_steps = None, sm_loss = None\<rparr>]\<rparr>
   \<and> Loss_init sample_ext (intensity_args 300) no_checkpoint \<noteq> Inl NotImplementedError"
  by (simp add: Loss_init_def init_object_def intensity_args_def sample_args_def sample_ext_def
      init_term_def select_ctor_def sample_construct_def decimal_float_def digit_of_def
      List.map_filter_def)

subsection \<open>Malformed configurations\<close>

lemma split_on_no_sep: "c \<notin> set s \<Longrightarrow> split_on c s = [s]"
  by (induction s) auto

lemma init_term_malformed:
  assumes "malformed env t"
  shows "\<exists>e. init_term env a t s = Inl e"
proof (cases s)
  case (fields ls lf h)
  show ?thesis
  proof (cases "split_on (CHR ''*'') t")
    case Nil
    then show ?thesis by (simp add: init_term_def fields)
  next
    case (Cons weight r)
    show ?thesis
    proof (cases r)
      case Nil
      with Cons show ?thesis by (simp add: init_term_def fields)
    next
      case r: (Cons loss_type r')
      show ?thesis
      proof (cases r')
        case Nil
        with Cons r assms have "pyfloat env weight = None"
          by (simp add: malformed_def)
        with Cons r Nil show ?thesis
          by (auto simp: init_term_def fields split: option.splits sum.splits)
      next
        case (Cons x xs)
        with \<open>split_on (CHR ''*'') t = weight # r\<close> r show ?thesis
          by (simp add: init_term_def fields)
      qed
    qed
  qed
qed

lemma init_terms_malformed:
  assumes "t \<in> set ts" and "malformed env t"
  shows "\<exists>e. init_terms env a ts s = Inl e"
  using assms
proof (induction ts arbitrary: s)
  case Nil
  then show ?case by simp
next
  case (Cons u us)
  show ?case
  proof (cases "init_term env a u s")
    case (Inl e)
    then show ?thesis by simp
  next
    case (Inr s')
    with Cons.prems init_term_malformed [of env u a s] have "t \<in> set us"
      by auto
    with Cons.IH [OF _ Cons.prems(2)] Inr show ?thesis
      by simp
  qed
qed

text \<open>
  C7. If some term of the configuration has no \<^verbatim>\<open>*\<close>, or \<^verbatim>\<open>float\<close> rejects its weight
  field (the text before its first \<^verbatim>\<open>*\<close>), then the constructor raises: no entry is
  skipped and no weight is made up.
\<close>

theorem init_malformed_term_fails:
  assumes "t \<in> set (split_on (CHR ''+'') (args_loss a))"
    and "CHR ''*'' \<notin> set t
         \<or> (\<exists>weight rest. split_on (CHR ''*'') t = weight # rest
               \<and> pyfloat env weight = None)"
  shows "\<exists>e. Loss_init env a ckp = Inl e"
proof -
  from assms(2) have "malformed env t"
    by (auto simp: malformed_def split_on_no_sep split: list.splits)
  from init_terms_malformed [OF assms(1) this]
  obtain e where "init_terms env a (split_on (CHR ''+'') (args_loss a)) ([], None, []) = Inl e"
    by blast
  then show ?thesis
    by (rule Loss_init_Inl)
qed

theorem init_malformed_term_fails_witness:
  "(\<exists>e. Loss_init sample_ext (sample_args ''1*MSE+L1'') no_checkpoint = Inl e)
   \<and> (\<exists>e. Loss_init sample_ext (sample_args ''1*MSE+half*L1'') no_checkpoint = Inl e)"
proof -
  have t1: "''L1'' \<in> set (split_on (CHR ''+'') (args_loss (sample_args ''1*MSE+L1'')))"
    and t2: "''half*L1'' \<in> set (split_on (CHR ''+'') (args_loss (sample_args ''1*MSE+half*L1'')))"
    by (simp_all add: sample_args_def)
  have m1: "CHR ''*'' \<notin> set ''L1''"
    by simp
  have m2: "\<exists>weight rest. split_on (CHR ''*'') ''half*L1'' = weight # rest
      \<and> pyfloat sample_ext weight = None"
    by (simp add: sample_ext_def decimal_float_def digit_of_def)
  have "\<exists>e. Loss_init sample_ext (sample_args ''1*MSE+L1'') no_checkpoint = Inl e"
    using init_malformed_term_fails [OF t1, of sample_ext no_checkpoint] m1 by simp
  moreover have "\<exists>e. Loss_init sample_ext (sample_args ''1*MSE+half*L1'') no_checkpoint = Inl e"
    using init_malformed_term_fails [OF t2, of sample_ext no_checkpoint] m2 by simp
  ultimately show ?thesis
    by simp
qed

subsection \<open>Addresses\<close>

text \<open>The loop allocates an object before it stores its address.\<close>

lemma bound_grow:
  assumes "list_all (\<lambda>l. case l_function l of None \<Rightarrow> True | Some f \<Rightarrow> f < length h) ls"
  shows "list_all (\<lambda>l. case l_function l of None \<Rightarrow> True | Some f \<Rightarrow> f < length (h @ [m])) ls"
  using assms by (induction ls) (auto split: option.splits)

lemma init_term_bound:
  assumes "init_term env a t s = Inr s'" and "bound s"
  shows "bound s'"
proof (cases s)
  case (fields ls lf h)
  from assms(1) obtain weight loss_type where sp: "split_on (CHR ''*'') t = [weight, loss_type]"
    by (auto simp: init_term_def fields split: list.splits)
  from assms(1) sp obtain w where w: "pyfloat env weight = Some w"
    by (auto simp: init_term_def fields split: option.splits sum.splits)
  show ?thesis
  proof (cases "select_ctor a loss_type")
    case None
    with assms sp w fields show ?thesis
      by (auto simp: init_term_def bound_def DIS_entry_def Let_def split: option.splits if_splits)
  next
    case (Some c)
    with assms(1) sp w fields obtain m where m: "construct env c = Inr m"
      by (auto simp: init_term_def split: sum.splits)
    from assms(2) fields have "list_all (\<lambda>l. case l_function l of None \<Rightarrow> True
        | Some f \<Rightarrow> f < length (h @ [m])) ls"
      by (simp add: bound_def bound_grow)
    with assms(1) sp w fields Some m show ?thesis
      by (auto simp: init_term_def bound_def DIS_entry_def Let_def split: if_splits)
  qed
qed

lemma init_terms_bound:
  assumes "init_terms env a ts s = Inr s'" and "bound s"
  shows "bound s'"
  using assms
proof (induction ts arbitrary: s)
  case Nil
  then show ?case by simp
next
  case (Cons t ts)
  from Cons.prems(1) obtain s1 where one: "init_term env a t s = Inr s1"
    and rest: "init_terms env a ts s1 = Inr s'"
    by (auto split: sum.splits)
  from Cons.IH [OF rest init_term_bound [OF one Cons.prems(2)]] show ?case .
qed

text \<open>
  In an object constructed without a checkpoint, the callable of every entry and every
  member of the module list is an object of the store.
\<close>

lemma Loss_init_addresses:
  assumes "Loss_init env a ckp = Inr self" and "args_load a = ''.''"
  shows "list_all (\<lambda>l. case l_function l of None \<Rightarrow> True | Some f \<Rightarrow> f < length (heap self))
           (loss self)"
proof (rule Loss_init_Inr [OF assms(1)])
  fix ls lf h
  assume t: "init_terms env a (split_on (CHR ''+'') (args_loss a)) ([], None, []) = Inr (ls, lf, h)"
    and "args_load a = ''.'' \<longrightarrow> self = init_object a ls h"
  with assms(2) have self: "self = init_object a ls h"
    by simp
  have "bound ([], None, [])"
    by (simp add: bound_def)
  from init_terms_bound [OF t this] have "list_all (\<lambda>l. case l_function l of None \<Rightarrow> True
      | Some f \<Rightarrow> f < length h) ls"
    by (simp add: bound_def)
  then show ?thesis
    unfolding self by (simp add: init_object_fields Total_entry_def cong: option.case_cong)
qed

section \<open>The log matrix\<close>

subsection \<open>One cell of the last row\<close>

lemma log_add_shape: "lg \<noteq> [] \<Longrightarrow> map length (log_add lg i v) = map length lg"
proof -
  assume "lg \<noteq> []"
  then have "map length lg = map length (butlast lg @ [last lg])"
    by simp
  then show ?thesis
    by (simp add: log_add_def)
qed

lemma log_add_butlast: "butlast (log_add lg i v) = butlast lg"
  by (simp add: log_add_def)

lemma log_add_last: "last (log_add lg i v) = (last lg)[i := last lg ! i + v]"
  by (simp add: log_add_def)

subsection \<open>The loop over the entries\<close>

text \<open>
  One iteration changes no shape: the rows of the log keep their lengths, the rows
  before the last are untouched, and the store keeps its size.
\<close>

lemma forward_term_shape:
  assumes "forward_term env ls sr hr i l (losses, lg, h) = ((losses', lg', h'), err)"
  shows "map length lg' = map length lg \<and> butlast lg' = butlast lg \<and> length h' = length h"
  using assms
  by (auto simp: forward_term_def Let_def log_index_ok_def log_add_shape log_add_butlast
      split: option.splits sum.splits if_splits prod.splits)

text \<open>
  An iteration that raises nothing appends the weighted value of the call when the
  entry has a callable, and leaves \<^verbatim>\<open>losses\<close> and the store alone when it has none.
\<close>

lemma forward_term_values:
  assumes "forward_term env ls sr hr i l (losses, lg, h) = ((losses', lg', h'), None)"
  shows "case l_function l of
           None \<Rightarrow> losses' = losses \<and> h' = h
         | Some f \<Rightarrow> (\<exists>v m. call env (h ! f) sr hr = Inr (v, m)
                         \<and> losses' = losses @ [l_weight l * v] \<and> h' = h[f := m])"
  using assms
  by (auto simp: forward_term_def Let_def
      split: option.splits sum.splits if_splits prod.splits)

text \<open>
  An iteration writes column \<open>i\<close> of the last row only, and not even that one when the
  entry has no callable and is not \<^verbatim>\<open>'DIS'\<close>.
\<close>

lemma forward_term_column:
  assumes "forward_term env ls sr hr i l (losses, lg, h) = ((losses', lg', h'), err)"
    and "j \<noteq> i \<or> (l_function l = None \<and> l_type l \<noteq> ''DIS'')"
  shows "last lg' ! j = last lg ! j"
  using assms
  by (auto simp: forward_term_def Let_def log_add_last
      split: option.splits sum.splits if_splits prod.splits)

lemma forward_terms_shape:
  assumes "forward_terms env ls sr hr i es (losses, lg, h) = ((losses', lg', h'), err)"
  shows "map length lg' = map length lg \<and> butlast lg' = butlast lg \<and> length h' = length h"
  using assms
proof (induction es arbitrary: i losses lg h)
  case Nil
  then show ?case by simp
next
  case (Cons l rest)
  obtain losses1 lg1 h1 err1
    where body: "forward_term env ls sr hr i l (losses, lg, h) = ((losses1, lg1, h1), err1)"
    by (metis prod_cases3 surj_pair)
  note one = forward_term_shape [OF body]
  show ?case
  proof (cases err1)
    case (Some e)
    with Cons.prems body one show ?thesis by simp
  next
    case None
    with Cons.prems body
    have "forward_terms env ls sr hr (Suc i) rest (losses1, lg1, h1) = ((losses', lg', h'), err)"
      by simp
    from Cons.IH [OF this] one show ?thesis by simp
  qed
qed

lemma callables_Cons:
  "callables (l # ls) =
     (case l_function l of None \<Rightarrow> callables ls | Some f \<Rightarrow> (l_weight l, f) # callables ls)"
  by (simp add: callables_def List.map_filter_def split: option.splits)

lemma forward_terms_values:
  assumes "forward_terms env ls sr hr i es (losses, lg, h) = ((losses', lg', h'), None)"
  shows "\<exists>vs. weighted_values env sr hr (callables es) h = Some vs \<and> losses' = losses @ vs"
  using assms
proof (induction es arbitrary: i losses lg h)
  case Nil
  then show ?case by (simp add: callables_def List.map_filter_def)
next
  case (Cons l rest)
  obtain losses1 lg1 h1 err1
    where body: "forward_term env ls sr hr i l (losses, lg, h) = ((losses1, lg1, h1), err1)"
    by (metis prod_cases3 surj_pair)
  with Cons.prems have none: "err1 = None"
    by (cases err1) auto
  with Cons.prems body
  have "forward_terms env ls sr hr (Suc i) rest (losses1, lg1, h1) = ((losses', lg', h'), None)"
    by simp
  from Cons.IH [OF this] obtain vs
    where vs: "weighted_values env sr hr (callables rest) h1 = Some vs"
      and l': "losses' = losses1 @ vs"
    by blast
  from forward_term_values [OF body [unfolded none]] vs l' show ?case
    by (cases "l_function l") (auto simp: callables_Cons)
qed

lemma forward_terms_column:
  assumes "forward_terms env ls sr hr i es (losses, lg, h) = ((losses', lg', h'), err)"
    and "\<And>k. k < length es \<Longrightarrow> i + k = j \<Longrightarrow>
           l_function (es ! k) = None \<and> l_type (es ! k) \<noteq> ''DIS''"
  shows "last lg' ! j = last lg ! j"
  using assms
proof (induction es arbitrary: i losses lg h)
  case Nil
  then show ?case by simp
next
  case (Cons l rest)
  obtain losses1 lg1 h1 err1
    where body: "forward_term env ls sr hr i l (losses, lg, h) = ((losses1, lg1, h1), err1)"
    by (metis prod_cases3 surj_pair)
  from Cons.prems(2) [of 0]
  have "j \<noteq> i \<or> (l_function l = None \<and> l_type l \<noteq> ''DIS'')"
    by auto
  note one = forward_term_column [OF body this]
  show ?case
  proof (cases err1)
    case (Some e)
    with Cons.prems(1) body one show ?thesis by simp
  next
    case None
    with Cons.prems(1) body
    have run: "forward_terms env ls sr hr (Suc i) rest (losses1, lg1, h1)
                 = ((losses', lg', h'), err)"
      by simp
    have "l_function (rest ! k) = None \<and> l_type (rest ! k) \<noteq> ''DIS''"
      if "k < length rest" and "Suc i + k = j" for k
      using Cons.prems(2) [of "Suc k"] that by simp
    from Cons.IH [OF run this] one show ?thesis by simp
  qed
qed

subsection \<open>\<^verbatim>\<open>forward\<close>\<close>

lemma foldl_add_sum_list: "foldl (+) a xs = a + sum_list (xs :: real list)"
  by (induction xs arbitrary: a) auto

text \<open>\<^verbatim>\<open>forward\<close> writes the log and the store and no other attribute.\<close>

lemma forward_frame:
  "loss (fst (forward env self sr hr)) = loss self"
  by (auto simp: forward_def Let_def split: sum.splits prod.splits option.splits)

text \<open>What a call of \<^verbatim>\<open>forward\<close> that returns went through.\<close>

lemma forward_Inr:
  assumes "forward env self sr hr = (self', Inr s)"
  obtains p losses lg h where
    "project env self sr hr = Inr p"
    "forward_terms env (loss self) (fst (normalized env self p)) (snd (normalized env self p))
        0 (loss self) ([], log_tensor self, heap self) = ((losses, lg, h), None)"
    "s = foldl (+) 0 losses"
    "1 < length (loss self) \<longrightarrow> lg \<noteq> [] \<and> last lg \<noteq> []
        \<and> log_tensor self' = log_add lg (length (last lg) - 1) s"
    "\<not> 1 < length (loss self) \<longrightarrow> log_tensor self' = lg"
proof (cases "project env self sr hr")
  case (Inl e)
  with assms show ?thesis by (simp add: forward_def)
next
  case (Inr p)
  obtain losses lg h err where
    ft: "forward_terms env (loss self) (fst (normalized env self p))
           (snd (normalized env self p)) 0 (loss self) ([], log_tensor self, heap self)
         = ((losses, lg, h), err)"
    by (metis prod_cases3 surj_pair)
  show ?thesis
  proof (cases err)
    case (Some e)
    with assms Inr ft show ?thesis by (simp add: forward_def)
  next
    case None
    with assms Inr ft have
      "s = foldl (+) 0 losses"
      "1 < length (loss self) \<longrightarrow> lg \<noteq> [] \<and> last lg \<noteq> []
        \<and> log_tensor self' = log_add lg (length (last lg) - 1) s"
      "\<not> 1 < length (loss self) \<longrightarrow> log_tensor self' = lg"
      by (auto simp: forward_def Let_def split: if_splits)
    with that [OF Inr ft [unfolded None]] show ?thesis
      by blast
  qed
qed

lemma forward_shape:
  "map length (log_tensor (fst (forward env self sr hr))) = map length (log_tensor self)"
proof (cases "project env self sr hr")
  case (Inl e)
  then show ?thesis by (simp add: forward_def)
next
  case (Inr p)
  obtain losses lg h err where
    ft: "forward_terms env (loss self) (fst (normalized env self p))
           (snd (normalized env self p)) 0 (loss self) ([], log_tensor self, heap self)
         = ((losses, lg, h), err)"
    by (metis prod_cases3 surj_pair)
  from forward_terms_shape [OF ft] have sh: "map length lg = map length (log_tensor self)"
    by simp
  show ?thesis
  proof (cases err)
    case (Some e)
    with Inr ft sh show ?thesis by (simp add: forward_def)
  next
    case None
    with Inr ft sh show ?thesis
      by (simp add: forward_def Let_def log_add_shape)
  qed
qed

text \<open>
  The returned scalar is the sum of the weighted values of the entries with a callable,
  called in order on the projected and normalized inputs.
\<close>

lemma forward_Inr_values:
  assumes "forward env self sr hr = (self', Inr s)"
  shows "\<exists>p vs. project env self sr hr = Inr p
     \<and> weighted_values env (fst (normalized env self p)) (snd (normalized env self p))
          (callables (loss self)) (heap self) = Some vs
     \<and> s = sum_list vs"
proof (rule forward_Inr [OF assms])
  fix p losses lg h
  assume p: "project env self sr hr = Inr p"
    and ft: "forward_terms env (loss self) (fst (normalized env self p))
        (snd (normalized env self p)) 0 (loss self) ([], log_tensor self, heap self)
      = ((losses, lg, h), None)"
    and s: "s = foldl (+) 0 losses"
  from forward_terms_values [OF ft] obtain vs where
    vs: "weighted_values env (fst (normalized env self p)) (snd (normalized env self p))
          (callables (loss self)) (heap self) = Some vs"
    and l: "losses = [] @ vs"
    by blast
  from s l have "s = sum_list vs"
    by (simp add: foldl_add_sum_list)
  with p vs show ?thesis
    by blast
qed

text \<open>
  With more than one entry, the last of them without a callable and not \<^verbatim>\<open>'DIS'\<close>, and a
  current row of one column per entry, the returned scalar is added to the last column.
\<close>

lemma forward_Inr_total:
  assumes fw: "forward env self sr hr = (self', Inr s)"
    and many: "1 < length (loss self)"
    and plain: "l_function (last (loss self)) = None" "l_type (last (loss self)) \<noteq> ''DIS''"
    and width: "length (last (log_tensor self)) = length (loss self)"
  shows "last (last (log_tensor self')) = last (last (log_tensor self)) + s"
proof (rule forward_Inr [OF fw])
  fix p losses lg h
  assume ft: "forward_terms env (loss self) (fst (normalized env self p))
        (snd (normalized env self p)) 0 (loss self) ([], log_tensor self, heap self)
      = ((losses, lg, h), None)"
    and "1 < length (loss self) \<longrightarrow> lg \<noteq> [] \<and> last lg \<noteq> []
        \<and> log_tensor self' = log_add lg (length (last lg) - 1) s"
  with many have lg: "lg \<noteq> []" "last lg \<noteq> []"
    and log': "log_tensor self' = log_add lg (length (last lg) - 1) s"
    by simp_all
  let ?n = "length (loss self)"
  from forward_terms_shape [OF ft] have sh: "map length lg = map length (log_tensor self)"
    by simp
  with lg have ne: "log_tensor self \<noteq> []"
    by auto
  from sh have "last (map length lg) = last (map length (log_tensor self))"
    by simp
  with lg ne have "length (last lg) = length (last (log_tensor self))"
    by (simp add: last_map)
  with width have w: "length (last lg) = ?n"
    by simp
  from many have "loss self \<noteq> []"
    by auto
  then have lst: "last (loss self) = loss self ! (?n - 1)"
    by (simp add: last_conv_nth)
  have "l_function (loss self ! k) = None \<and> l_type (loss self ! k) \<noteq> ''DIS''"
    if "k < ?n" and "0 + k = ?n - 1" for k
    using that plain lst by simp
  from forward_terms_column [OF ft this]
  have col: "last lg ! (?n - 1) = last (log_tensor self) ! (?n - 1)"
    by simp
  from width many have "last (log_tensor self) \<noteq> []"
    by auto
  with width have old: "last (last (log_tensor self)) = last (log_tensor self) ! (?n - 1)"
    by (simp add: last_conv_nth)
  from log' w lg have "last (last (log_tensor self')) = last lg ! (?n - 1) + s"
    by (simp add: log_add_last last_list_update)
  with col old show ?thesis
    by simp
qed

text \<open>Two calls of \<^verbatim>\<open>forward\<close> on the sample object, evaluated.\<close>

lemmas sample_defs =
  forward_def project_def normalized_def forward_term_def log_index_ok_def log_add_def
  start_log_def end_log_def sample_loss_def sample_ext_def sample_call_def Total_entry_def
  Let_def

lemma sample_forward_1:
  "forward sample_ext (sample_loss\<lparr>log_tensor := [[0, 0, 0]]\<rparr>) [1, 2, 3] [1, 2, 5] =
     (sample_loss\<lparr>log_tensor := [[4 / 3, 1 / 3, 5 / 3]]\<rparr>, Inr (5 / 3))"
  by (simp add: sample_defs)

lemma sample_forward_2:
  "forward sample_ext (sample_loss\<lparr>log_tensor := [[4 / 3, 1 / 3, 5 / 3]]\<rparr>) [1, 2, 3] [1, 2, 4] =
     (sample_loss\<lparr>log_tensor := [[5 / 3, 1 / 2, 13 / 6]]\<rparr>, Inr (1 / 2))"
  by (simp add: sample_defs)

lemma weighted_values_length:
  "weighted_values env sr hr cs h = Some vs \<Longrightarrow> length vs = length cs"
proof (induction cs arbitrary: h vs)
  case Nil
  then show ?case by simp
next
  case (Cons c cs)
  obtain w f where c: "c = (w, f)" by (cases c) auto
  from Cons.prems c obtain v m vs' where
    "weighted_values env sr hr cs (h[f := m]) = Some vs'" and "vs = w * v # vs'"
    by (auto split: sum.splits)
  with Cons.IH show ?case by auto
qed

lemma length_callables:
  "length (callables ls) = length (filter (\<lambda>l. l_function l \<noteq> None) ls)"
  by (induction ls) (auto simp: callables_Cons callables_def List.map_filter_def)

text \<open>
  C4. When \<^verbatim>\<open>forward(sr, hr)\<close> returns a scalar, the scalar is the sum of the values
  \<open>weight * value\<close> of the entries with a callable, one summand for each of them, called in
  the order of the list on the projected and normalized inputs; an entry without a
  callable adds no summand. With more than one entry, the last of them the entry without
  callable that \<^verbatim>\<open>'Total'\<close> is, and a current row of one column per entry, the scalar is
  also added to the last column of the current row.
\<close>

theorem forward_weighted_sum:
  assumes "forward env self sr hr = (self', Inr s)"
  shows "(\<exists>p vs. project env self sr hr = Inr p
            \<and> weighted_values env (fst (normalized env self p)) (snd (normalized env self p))
                 (callables (loss self)) (heap self) = Some vs
            \<and> length vs = length (filter (\<lambda>l. l_function l \<noteq> None) (loss self))
            \<and> s = sum_list vs)
       \<and> (1 < length (loss self) \<and> l_function (last (loss self)) = None
            \<and> l_type (last (loss self)) \<noteq> ''DIS''
            \<and> length (last (log_tensor self)) = length (loss self)
          \<longrightarrow> last (last (log_tensor self')) = last (last (log_tensor self)) + s)"
proof (intro conjI impI)
  from forward_Inr_values [OF assms] obtain p vs where
    p: "project env self sr hr = Inr p"
    and vs: "weighted_values env (fst (normalized env self p)) (snd (normalized env self p))
               (callables (loss self)) (heap self) = Some vs"
    and s: "s = sum_list vs"
    by blast
  from weighted_values_length [OF vs]
  have "length vs = length (filter (\<lambda>l. l_function l \<noteq> None) (loss self))"
    by (simp add: length_callables)
  with p vs s
  show "\<exists>p vs. project env self sr hr = Inr p
            \<and> weighted_values env (fst (normalized env self p)) (snd (normalized env self p))
                 (callables (loss self)) (heap self) = Some vs
            \<and> length vs = length (filter (\<lambda>l. l_function l \<noteq> None) (loss self))
            \<and> s = sum_list vs"
    by blast
next
  assume "1 < length (loss self) \<and> l_function (last (loss self)) = None
            \<and> l_type (last (loss self)) \<noteq> ''DIS''
            \<and> length (last (log_tensor self)) = length (loss self)"
  then show "last (last (log_tensor self')) = last (last (log_tensor self)) + s"
    using forward_Inr_total [OF assms] by simp
qed

theorem forward_weighted_sum_witness:
  "(\<exists>p vs. project sample_ext (sample_loss\<lparr>log_tensor := [[0, 0, 0]]\<rparr>) [1, 2, 3] [1, 2, 5] = Inr p
      \<and> weighted_values sample_ext
           (fst (normalized sample_ext (sample_loss\<lparr>log_tensor := [[0, 0, 0]]\<rparr>) p))
           (snd (normalized sample_ext (sample_loss\<lparr>log_tensor := [[0, 0, 0]]\<rparr>) p))
           (callables (loss (sample_loss\<lparr>log_tensor := [[0, 0, 0]]\<rparr>)))
           (heap (sample_loss\<lparr>log_tensor := [[0, 0, 0]]\<rparr>)) = Some vs
      \<and> length vs = length (filter (\<lambda>l. l_function l \<noteq> None)
                                 (loss (sample_loss\<lparr>log_tensor := [[0, 0, 0]]\<rparr>)))
      \<and> 5 / 3 = sum_list vs)
   \<and> last (last (log_tensor (sample_loss\<lparr>log_tensor := [[4 / 3, 1 / 3, 5 / 3]]\<rparr>))) =
       last (last (log_tensor (sample_loss\<lparr>log_tensor := [[0, 0, 0]]\<rparr>))) + 5 / 3"
proof -
  let ?self = "sample_loss\<lparr>log_tensor := [[0, 0, 0]]\<rparr>"
  have hyp: "1 < length (loss ?self) \<and> l_function (last (loss ?self)) = None
      \<and> l_type (last (loss ?self)) \<noteq> ''DIS''
      \<and> length (last (log_tensor ?self)) = length (loss ?self)"
    by (simp add: sample_loss_def Total_entry_def)
  note th = forward_weighted_sum [OF sample_forward_1]
  from th [THEN conjunct2, THEN mp, OF hyp] th [THEN conjunct1] show ?thesis
    by (intro conjI)
qed

subsection \<open>\<^verbatim>\<open>start_log\<close> and \<^verbatim>\<open>end_log\<close>\<close>

lemma start_log_Inr:
  assumes "start_log self = Inr self'"
  shows "self' = self\<lparr>log_tensor := log_tensor self @ [replicate (length (loss self)) 0]\<rparr>"
    and "log_inv self"
  using assms by (auto simp: start_log_def log_inv_def split: if_splits)

lemma end_log_Inr:
  assumes "end_log self n = Inr self'"
  shows "log_tensor self \<noteq> []"
    and "self' = self\<lparr>log_tensor :=
            butlast (log_tensor self) @ [map (\<lambda>x. x / n) (last (log_tensor self))]\<rparr>"
  using assms by (auto simp: end_log_def split: if_splits)

text \<open>
  C10. On a log without rows \<^verbatim>\<open>end_log\<close> raises \<^verbatim>\<open>IndexError\<close>. Otherwise it returns, the
  log has as many rows as before, every row before the last is as it was, no other
  attribute changes, and (for a divisor other than 0) the last row is the old last row
  with every entry divided by \<open>n_batches\<close>.
\<close>

theorem end_log_last_row_only:
  "(log_tensor self = [] \<longrightarrow> end_log self n = Inl IndexError)
   \<and> (log_tensor self \<noteq> [] \<longrightarrow>
        (\<exists>self'. end_log self n = Inr self'
           \<and> length (log_tensor self') = length (log_tensor self)
           \<and> butlast (log_tensor self') = butlast (log_tensor self)
           \<and> self' = self\<lparr>log_tensor := log_tensor self'\<rparr>
           \<and> (n \<noteq> 0 \<longrightarrow> last (log_tensor self') = map (\<lambda>x. x / n) (last (log_tensor self)))))"
  by (simp add: end_log_def)

theorem end_log_last_row_only_witness:
  "\<exists>self'. end_log (sample_loss\<lparr>log_tensor := [[1, 2, 3], [2, 4, 6]]\<rparr>) 2 = Inr self'
     \<and> length (log_tensor self') = 2
     \<and> butlast (log_tensor self') = [[1, 2, 3]]
     \<and> last (log_tensor self') = [1, 2, 3]"
  using end_log_last_row_only [of "sample_loss\<lparr>log_tensor := [[1, 2, 3], [2, 4, 6]]\<rparr>" 2]
  by auto

subsection \<open>The invariant\<close>











lemma sample_run:
  "log_tensor (run sample_ext sample_loss
      [Start_log, Forward [1, 2, 3] [1, 2, 5], Forward [1, 2, 3] [1, 2, 4], End_log 2])
   = [[5 / 6, 1 / 4, 13 / 12]]"
  by (simp add: run_def sample_defs)


subsection \<open>One epoch of two batches\<close>

text \<open>A constructed list of more than one entry ends with the \<^verbatim>\<open>'Total'\<close> entry.\<close>

lemma Loss_init_last_Total:
  assumes "Loss_init env a ckp = Inr self" and "1 < length (loss self)"
  shows "last (loss self) = Total_entry"
proof (rule Loss_init_Inr [OF assms(1)])
  fix ls lf h
  assume "loss self = loss (init_object a ls h)"
  with assms(2) show ?thesis
    by (simp add: init_object_fields split: if_splits)
qed

lemma forward_keeps:
  assumes "forward env self sr hr = (self', r)"
  shows "loss self' = loss self"
    and "map length (log_tensor self') = map length (log_tensor self)"
  using forward_frame [of env self sr hr] forward_shape [of env self sr hr] assms
  by simp_all

lemma last_row_width:
  assumes "map length lg' = map length lg" and "lg \<noteq> []"
  shows "lg' \<noteq> []" and "length (last lg') = length (last lg)"
proof -
  from assms show ne: "lg' \<noteq> []"
    by auto
  from assms(1) have "last (map length lg') = last (map length lg)"
    by simp
  with ne assms(2) show "length (last lg') = length (last lg)"
    by (simp add: last_map)
qed

text \<open>
  C5. Take a loss list of more than one entry whose last entry is the \<^verbatim>\<open>'Total'\<close> entry.
  If \<^verbatim>\<open>start_log\<close> returns, two calls of \<^verbatim>\<open>forward\<close> then return the scalars \<open>s1\<close> and
  \<open>s2\<close>, and \<^verbatim>\<open>end_log(2)\<close> returns, then the last column of the last row of the log is
  \<open>(s1 + s2) / 2\<close>.
\<close>

theorem total_column_average:
  assumes many: "1 < length (loss self)"
    and total: "last (loss self) = Total_entry"
    and sl: "start_log self = Inr self1"
    and f1: "forward env self1 sr1 hr1 = (self2, Inr s1)"
    and f2: "forward env self2 sr2 hr2 = (self3, Inr s2)"
    and el: "end_log self3 2 = Inr self4"
  shows "last (last (log_tensor self4)) = (s1 + s2) / 2"
proof -
  let ?n = "length (loss self)"
  from start_log_Inr(1) [OF sl]
  have l1: "loss self1 = loss self"
    and r1: "last (log_tensor self1) = replicate ?n 0"
    and ne1: "log_tensor self1 \<noteq> []"
    by simp_all
  from total have plain: "l_function (last (loss self)) = None" "l_type (last (loss self)) \<noteq> ''DIS''"
    by (simp_all add: Total_entry_def)
  from many have z: "last (replicate ?n (0::real)) = 0"
    by (cases ?n) simp_all
  from forward_Inr_total [OF f1] many plain l1 r1 z
  have c2: "last (last (log_tensor self2)) = s1"
    by simp
  from forward_keeps [OF f1] l1 have l2: "loss self2 = loss self"
    by simp
  from last_row_width [OF forward_keeps(2) [OF f1] ne1] r1
  have ne2: "log_tensor self2 \<noteq> []" and w2: "length (last (log_tensor self2)) = ?n"
    by simp_all
  from forward_Inr_total [OF f2] many plain l2 w2 c2
  have c3: "last (last (log_tensor self3)) = s1 + s2"
    by simp
  from last_row_width [OF forward_keeps(2) [OF f2] ne2] w2 many
  have ne3: "last (log_tensor self3) \<noteq> []"
    by auto
  from end_log_Inr(2) [OF el]
  have "last (log_tensor self4) = map (\<lambda>x. x / 2) (last (log_tensor self3))"
    by simp
  with ne3 c3 show ?thesis
    by (simp add: last_map)
qed

theorem total_column_average_witness:
  "last (last (log_tensor (sample_loss\<lparr>log_tensor := [[5 / 6, 1 / 4, 13 / 12]]\<rparr>)))
     = (5 / 3 + 1 / 2) / 2"
proof -
  have many: "1 < length (loss sample_loss)"
    and total: "last (loss sample_loss) = Total_entry"
    by (simp_all add: sample_loss_def)
  have sl: "start_log sample_loss = Inr (sample_loss\<lparr>log_tensor := [[0, 0, 0]]\<rparr>)"
    by (simp add: sample_defs)
  have el: "end_log (sample_loss\<lparr>log_tensor := [[5 / 3, 1 / 2, 13 / 6]]\<rparr>) 2
      = Inr (sample_loss\<lparr>log_tensor := [[5 / 6, 1 / 4, 13 / 12]]\<rparr>)"
    by (simp add: sample_defs)
  from total_column_average [OF many total sl sample_forward_1 sample_forward_2 el]
  show ?thesis .
qed

section \<open>Restoring a checkpoint\<close>

lemma replay_length: "length (replay env n h a) = length h"
  by (simp add: replay_def)

lemma replay_same:
  "a < length h \<Longrightarrow>
     replay env n h a ! a =
       (if has_scheduler env (h ! a) then (scheduler_step env ^^ n) (h ! a) else h ! a)"
  by (simp add: replay_def)

lemma replay_other: "b \<noteq> a \<Longrightarrow> replay env n h a ! b = h ! b"
  by (simp add: replay_def)

text \<open>
  The replay over a module list without repetition: each object of the list that has a
  scheduler is stepped \<open>n\<close> times, every other object of the store is as it was.
\<close>

lemma replay_all:
  assumes "distinct ms" and "\<forall>a \<in> set ms. a < length h"
  shows "length (foldl (replay env n) h ms) = length h
     \<and> (\<forall>a < length h. foldl (replay env n) h ms ! a =
           (if a \<in> set ms \<and> has_scheduler env (h ! a)
            then (scheduler_step env ^^ n) (h ! a) else h ! a))"
  using assms
proof (induction ms arbitrary: h)
  case Nil
  then show ?case by simp
next
  case (Cons b bs)
  let ?h = "replay env n h b"
  from Cons.prems have d: "distinct bs" and nb: "b \<notin> set bs" and b: "b < length h"
    and bs: "\<forall>a \<in> set bs. a < length ?h"
    by (simp_all add: replay_length)
  note IH = Cons.IH [OF d bs]
  from IH have len: "length (foldl (replay env n) ?h bs) = length h"
    by (simp add: replay_length)
  have "foldl (replay env n) ?h bs ! a =
          (if a \<in> set (b # bs) \<and> has_scheduler env (h ! a)
           then (scheduler_step env ^^ n) (h ! a) else h ! a)"
    if a: "a < length h" for a
  proof (cases "a = b")
    case True
    with IH a nb have "foldl (replay env n) ?h bs ! a = ?h ! b"
      by (simp add: replay_length)
    with True b show ?thesis
      by (simp add: replay_same)
  next
    case False
    then have "?h ! a = h ! a"
      by (simp add: replay_other)
    with IH a False show ?thesis
      by (simp add: replay_length)
  qed
  with len show ?case
    by simp
qed

lemma load_ModuleList:
  assumes "loss_module self = ModuleList ms" and "distinct ms"
    and "loss_pt ckp = Some sd" and "load_state_dict env sd (heap self) = Inr h"
    and "loss_log_pt ckp = Some lg" and "\<forall>a \<in> set ms. a < length h"
  shows "\<exists>self'. load env self ckp cpu = Inr self' \<and> log_tensor self' = lg
     \<and> length (heap self') = length h
     \<and> (\<forall>a < length h. heap self' ! a =
           (if a \<in> set ms \<and> has_scheduler env (h ! a)
            then (scheduler_step env ^^ length lg) (h ! a) else h ! a))"
  using assms(1,3,4,5) replay_all [OF assms(2,6), of env "length lg"]
  by (simp add: load_def)

text \<open>
  Under the \<^verbatim>\<open>DataParallel\<close> wrapper \<^verbatim>\<open>load\<close> raises whatever the checkpoint holds: if
  nothing before it fails, the \<^verbatim>\<open>for\<close> statement over the wrapper does.
\<close>

lemma load_DataParallel:
  assumes "loss_module self = DataParallel ms"
  shows "\<exists>e. load env self ckp cpu = Inl e"
  using assms by (simp add: load_def split: option.splits sum.splits)

text \<open>\<^verbatim>\<open>step\<close> reaches the module list through \<^verbatim>\<open>get_loss_module\<close>, which unwraps it.\<close>

lemma step_DataParallel:
  assumes "loss_module self = DataParallel ms" and "n_GPUs self \<noteq> 1"
  shows "step env self = Inr (self\<lparr>heap := foldl (replay env 1) (heap self) ms\<rparr>)"
  using assms by (simp add: step_def get_loss_module_def)

text \<open>
  On one device the replay reaches the module list. An object that stands twice in the
  list, as after a kind that no branch recognizes, is stepped twice for each row.
\<close>

lemma load_steps_shared_module_twice:
  "map_sum id (map sm_steps \<circ> heap)
     (Loss_init sample_ext ((sample_args ''1*GAN'')\<lparr>args_load := ''latest''\<rparr>) one_epoch)
     = Inr [Some 1]
   \<and> map_sum id (map sm_steps \<circ> heap)
     (Loss_init sample_ext ((sample_args ''1*GAN+1*Foo'')\<lparr>args_load := ''latest''\<rparr>) one_epoch)
     = Inr [Some 2]"
  by (simp add: Loss_init_def init_object_def one_epoch_def
      sample_args_def sample_ext_def init_term_def select_ctor_def sample_construct_def
      decimal_float_def digit_of_def List.map_filter_def DIS_entry_def Total_entry_def
      load_def replay_def)

text \<open>
  C8 on two GPUs. The configuration \<^verbatim>\<open>"1*GAN"\<close> with \<^verbatim>\<open>cpu = False\<close> and \<^verbatim>\<open>n_GPUs = 2\<close>
  builds an object whose module list is wrapped in \<^verbatim>\<open>DataParallel\<close>. On it \<^verbatim>\<open>load\<close>
  restores the state and the log and then raises \<^verbatim>\<open>TypeError\<close> at
  \<^verbatim>\<open>for l in self.loss_module\<close>: no scheduler is advanced. \<^verbatim>\<open>step\<close> on the same object
  advances the scheduler of the adversarial sub-module once.
\<close>

theorem load_two_GPUs_raises:
  "Loss_init sample_ext gpu_args no_checkpoint = Inr gpu_loss
   \<and> load sample_ext gpu_loss one_epoch False = Inl TypeError
   \<and> Loss_init sample_ext (gpu_args\<lparr>args_load := ''latest''\<rparr>) one_epoch = Inl TypeError
   \<and> map_sum id (map sm_steps \<circ> heap) (step sample_ext gpu_loss) = Inr [Some 1]"
  by (simp add: Loss_init_def init_object_def gpu_args_def gpu_loss_def one_epoch_def
      sample_args_def sample_ext_def init_term_def select_ctor_def sample_construct_def
      decimal_float_def digit_of_def List.map_filter_def DIS_entry_def Total_entry_def
      load_def step_def get_loss_module_def replay_def no_checkpoint_def)

end
